theory Spec2Isabelle
  imports Main
begin

section \<open>The select field of the form library (field\_select.go)\<close>

text \<open>
  A shallow embedding of \<^verbatim>\<open>Select[T]\<close>: the struct is a record, its pointer-typed
  fields are options (\<open>None\<close> is Go's \<^verbatim>\<open>nil\<close>), the bound-value cell lives in
  an explicit store, and every runtime panic of the Go code is a value of type \<open>panic\<close>.
\<close>

subsection \<open>Errors, panics and the world outside the field\<close>

text \<open>
  A Go \<^verbatim>\<open>error\<close> is modelled by its message; \<open>error option\<close> is the interface
  value, \<open>None\<close> being \<^verbatim>\<open>nil\<close>.
\<close>

type_synonym error = string

text \<open>A pointer \<^verbatim>\<open>*T\<close> is an index into the store of cells.\<close>

type_synonym addr = nat

datatype panic =
  NilPointerDereference
| IndexOutOfRange

text \<open>
  Everything the field reads or changes outside its own struct:
  \<^item> \<open>cells\<close>: the store of \<^verbatim>\<open>T\<close> cells that \<^verbatim>\<open>*T\<close> pointers point into;
  \<^item> \<open>vcalls\<close>: the arguments of the calls of \<^verbatim>\<open>s.validate\<close>, oldest first
    (the validator is a caller-supplied function; its calls are recorded so that
    "runs the validator" can be stated);
  \<^item> \<open>stdout\<close>: the arguments of the calls of \<^verbatim>\<open>fmt.Println\<close>, oldest first
    (each is followed by a newline on the terminal);
  \<^item> \<open>stdin\<close>: the integers the user will type at the prompts of the accessible
    path, next one first.
\<close>

record 't world =
  cells :: "'t list"
  vcalls :: "'t list"
  stdout :: "string list"
  stdin :: "int list"

text \<open>\<^verbatim>\<open>new(T)\<close>: a fresh cell holding the zero value of \<^verbatim>\<open>T\<close>.\<close>

definition new :: "'t \<Rightarrow> 't world \<Rightarrow> addr \<times> 't world" where
  "new zero w = (length (cells w), w\<lparr>cells := cells w @ [zero]\<rparr>)"

text \<open>
  \<^verbatim>\<open>*p\<close> as a read and \<^verbatim>\<open>*p = v\<close> as a write. Both panic on \<^verbatim>\<open>nil\<close>; an
  address outside the store (which Go cannot produce) is treated the same way.
\<close>

definition load :: "'t world \<Rightarrow> addr option \<Rightarrow> 't option" where
  "load w p =
     (case p of
        None \<Rightarrow> None
      | Some a \<Rightarrow> if a < length (cells w) then Some (cells w ! a) else None)"

definition store :: "'t world \<Rightarrow> addr option \<Rightarrow> 't \<Rightarrow> 't world option" where
  "store w p v =
     (case p of
        None \<Rightarrow> None
      | Some a \<Rightarrow>
          if a < length (cells w) then Some (w\<lparr>cells := (cells w)[a := v]\<rparr>) else None)"

text \<open>One call of the validator with argument \<open>v\<close> is recorded in the world.\<close>

definition called :: "'t \<Rightarrow> 't world \<Rightarrow> 't world" where
  "called v w = w\<lparr>vcalls := vcalls w @ [v]\<rparr>"

text \<open>\<^verbatim>\<open>fmt.Println(x)\<close>.\<close>

definition Println :: "string \<Rightarrow> 't world \<Rightarrow> 't world" where
  "Println x w = w\<lparr>stdout := stdout w @ [x]\<rparr>"

subsection \<open>Machine integers\<close>

text \<open>
  \<^verbatim>\<open>selected\<close> is a Go \<^verbatim>\<open>int\<close> (64 bits, two's complement): the result of
  \<^verbatim>\<open>selected-1\<close> and \<^verbatim>\<open>selected+1\<close> wraps around.
\<close>

definition int64 :: "int \<Rightarrow> int" where
  "int64 x = (x + 2 ^ 63) mod 2 ^ 64 - 2 ^ 63"

definition max_int :: int where
  "max_int = 2 ^ 63 - 1"

subsection \<open>Options, key bindings, theme\<close>

record 't Option =
  Key :: string
  Value :: 't

text \<open>
  A \<^verbatim>\<open>tea.Msg\<close> is either a key message, modelled by its \<^verbatim>\<open>String()\<close>, or a
  message of any other type.
\<close>

datatype Msg =
  KeyMsg string
| OtherMsg

text \<open>
  \<^verbatim>\<open>key.Binding\<close> and \<^verbatim>\<open>key.Matches\<close> belong to the key-binding library the
  field imports: a key message matches a binding when the binding is enabled and the
  message's string is one of the binding's keys.
\<close>

record Binding =
  keys :: "string list"
  disabled :: bool

definition Matches :: "string \<Rightarrow> Binding \<Rightarrow> bool" where
  "Matches k b = (k \<in> set (keys b) \<and> \<not> disabled b)"

record SelectKeyMap =
  Up :: Binding
  Down :: Binding
  Next :: Binding
  Prev :: Binding

record KeyMap =
  Select :: SelectKeyMap

text \<open>
  The commands \<^verbatim>\<open>Update\<close> can return; a \<^verbatim>\<open>nil\<close> command is \<open>None\<close>.
\<close>

datatype Cmd =
  nextField
| prevField

text \<open>
  Of a theme, the field's accessible path uses two styles, each through its
  \<^verbatim>\<open>Render\<close> method only; a style is modelled by that function.
\<close>

type_synonym Style = "string \<Rightarrow> string"

record FieldStyles =
  Base :: Style
  Title :: Style

record Theme =
  Focused :: FieldStyles
  Blurred :: FieldStyles

subsection \<open>The struct\<close>

record 't Select =
  "value" :: "addr option"
  title :: string
  description :: string
  options :: "'t Option list"
  validate :: "'t \<Rightarrow> error option"
  err :: "error option"
  selected :: int
  focused :: bool
  width :: int
  accessible :: bool
  theme :: "Theme option"
  keymap :: "SelectKeyMap option"

subsection \<open>Construction and configuration\<close>

text \<open>
  \<^verbatim>\<open>NewSelect\<close>. The type parameter's zero value and \<^verbatim>\<open>fmt.Sprint\<close> at that type
  are parameters. Fields the struct literal leaves out hold their zero values.
\<close>

definition NewSelect ::
  "'t \<Rightarrow> ('t \<Rightarrow> string) \<Rightarrow> 't list \<Rightarrow> 't world \<Rightarrow> 't Select \<times> 't world" where
  "NewSelect zero Sprint opts w =
     (let (a, w') = new zero w in
      (\<lparr>value = Some a,
        title = [],
        description = [],
        options = map (\<lambda>option. \<lparr>Key = Sprint option, Value = option\<rparr>) opts,
        validate = (\<lambda>_. None),
        err = None,
        selected = 0,
        focused = False,
        width = 0,
        accessible = False,
        theme = None,
        keymap = None\<rparr>, w'))"

definition Select_Value :: "'t Select \<Rightarrow> addr option \<Rightarrow> 't Select" where
  "Select_Value s p = s\<lparr>value := p\<rparr>"

definition Select_Title :: "'t Select \<Rightarrow> string \<Rightarrow> 't Select" where
  "Select_Title s t = s\<lparr>title := t\<rparr>"

definition Description :: "'t Select \<Rightarrow> string \<Rightarrow> 't Select" where
  "Description s d = s\<lparr>description := d\<rparr>"

definition Options :: "'t Select \<Rightarrow> 't Option list \<Rightarrow> 't Select" where
  "Options s os = s\<lparr>options := os\<rparr>"

definition Validate :: "'t Select \<Rightarrow> ('t \<Rightarrow> error option) \<Rightarrow> 't Select" where
  "Validate s f = s\<lparr>validate := f\<rparr>"

definition WithTheme :: "'t Select \<Rightarrow> Theme option \<Rightarrow> 't Select" where
  "WithTheme s th = s\<lparr>theme := th\<rparr>"

definition WithKeyMap :: "'t Select \<Rightarrow> KeyMap \<Rightarrow> 't Select" where
  "WithKeyMap s k = s\<lparr>keymap := Some (Select k)\<rparr>"

definition WithAccessible :: "'t Select \<Rightarrow> bool \<Rightarrow> 't Select" where
  "WithAccessible s b = s\<lparr>accessible := b\<rparr>"

definition WithWidth :: "'t Select \<Rightarrow> int \<Rightarrow> 't Select" where
  "WithWidth s n = s\<lparr>width := n\<rparr>"

subsection \<open>The field contract\<close>

text \<open>
  \<^verbatim>\<open>View\<close>, \<^verbatim>\<open>KeyBinds\<close> and the interactive branch of \<^verbatim>\<open>Run\<close> only read the
  struct and hand it to the rendering library and the event loop; they are not part
  of the embedding.
\<close>

definition Error :: "'t Select \<Rightarrow> error option" where
  "Error s = err s"

definition Focus :: "'t Select \<Rightarrow> 't world \<Rightarrow> 't Select \<times> Cmd option \<times> 't world" where
  "Focus s w = (s\<lparr>focused := True\<rparr>, None, w)"

definition Blur ::
  "'t Select \<Rightarrow> 't world \<Rightarrow> panic + 't Select \<times> Cmd option \<times> 't world" where
  "Blur s w =
     (let s1 = s\<lparr>focused := False\<rparr> in
      case load w (value s1) of
        None \<Rightarrow> Inl NilPointerDereference
      | Some v \<Rightarrow> Inr (s1\<lparr>err := validate s1 v\<rparr>, None, called v w))"

definition Init :: "'t Select \<Rightarrow> Cmd option" where
  "Init s = None"

text \<open>
  \<^verbatim>\<open>Update\<close>. The cases of the inner \<^verbatim>\<open>switch\<close> are tried in the order of the
  source; the first evaluation of \<^verbatim>\<open>s.keymap.Up\<close> panics when the keymap is nil, and
  \<^verbatim>\<open>s.options[s.selected]\<close> panics when the index is out of range.
\<close>

definition Update ::
  "'t Select \<Rightarrow> 't world \<Rightarrow> Msg \<Rightarrow> panic + 't Select \<times> Cmd option \<times> 't world" where
  "Update s w msg =
     (case msg of
        KeyMsg k \<Rightarrow>
          (let s1 = s\<lparr>err := None\<rparr> in
           case keymap s1 of
             None \<Rightarrow> Inl NilPointerDereference
           | Some km \<Rightarrow>
               if Matches k (Up km) then
                 Inr (s1\<lparr>selected := max (int64 (selected s1 - 1)) 0\<rparr>, None, w)
               else if Matches k (Down km) then
                 Inr (s1\<lparr>selected :=
                        min (int64 (selected s1 + 1)) (int (length (options s1)) - 1)\<rparr>,
                      None, w)
               else if Matches k (Prev km) then
                 Inr (s1, Some prevField, w)
               else if Matches k (Next km) then
                 (if 0 \<le> selected s1 \<and> selected s1 < int (length (options s1)) then
                    (let v = Value (options s1 ! nat (selected s1));
                         s2 = s1\<lparr>err := validate s1 v\<rparr>;
                         w1 = called v w
                     in if err s2 \<noteq> None then Inr (s2, None, w1)
                        else (case store w1 (value s2) v of
                                None \<Rightarrow> Inl NilPointerDereference
                              | Some w2 \<Rightarrow> Inr (s2, Some nextField, w2)))
                  else Inl IndexOutOfRange)
               else Inr (s1, None, w))
      | OtherMsg \<Rightarrow> Inr (s, None, w))"

subsection \<open>The accessible path\<close>

text \<open>\<^verbatim>\<open>fmt.Sprintf("%d", n)\<close> for a natural number.\<close>

definition digit :: "nat \<Rightarrow> char" where
  "digit d = ''0123456789'' ! d"

function itoa :: "nat \<Rightarrow> string" where
  "itoa n = (if n < 10 then [digit n] else itoa (n div 10) @ [digit (n mod 10)])"
  by pat_completeness auto
termination
  by (relation "measure id") auto

declare itoa.simps [simp del]

definition newline :: string where
  "newline = [CHR 0x0A]"

text \<open>
  The loop \<^verbatim>\<open>for i, option := range s.options\<close> of \<^verbatim>\<open>runAccessible\<close>, which
  appends one numbered line per option to the string builder \<open>sb\<close>.
\<close>

fun listing :: "nat \<Rightarrow> 't Option list \<Rightarrow> string \<Rightarrow> string" where
  "listing i [] sb = sb"
| "listing i (option # rest) sb =
     listing (i + 1) rest (sb @ (itoa (i + 1) @ ''. '' @ Key option) @ newline)"

text \<open>
  Modelled from the spec: \<^verbatim>\<open>accessibility.PromptInt\<close> is not part of the source file.
  The spec: "repeatedly prompt for an integer selection restricted to the valid index
  range; invalid input is rejected and re-prompted by the external prompt collaborator".
  The prompt consumes typed integers until one lies in \<open>[low, high]\<close> and returns it;
  when the input runs out it waits forever, which is \<open>None\<close>. What the prompt itself
  prints is not recorded.
\<close>

fun PromptInt :: "int \<Rightarrow> int \<Rightarrow> 't world \<Rightarrow> (int \<times> 't world) option" where
  "PromptInt low high w =
     (case dropWhile (\<lambda>i. \<not> (low \<le> i \<and> i \<le> high)) (stdin w) of
        [] \<Rightarrow> None
      | choice # rest \<Rightarrow> Some (choice, w\<lparr>stdin := rest\<rparr>))"

text \<open>
  How a run of the accessible path ends when it does not return: with a panic, or
  blocked at the prompt with no input left (the world at that point is kept).
\<close>

datatype 't stop =
  Panic panic
| AwaitingInput "'t world"

text \<open>
  The \<^verbatim>\<open>for { ... }\<close> loop of \<^verbatim>\<open>runAccessible\<close>; the value returned after
  \<^verbatim>\<open>break\<close> is the \<^verbatim>\<open>nil\<close> error. Each iteration consumes input, which is why
  the recursion ends.
\<close>

function prompt_loop :: "'t Select \<Rightarrow> 't world \<Rightarrow> 't stop + error option \<times> 't world" where
  "prompt_loop s w =
     (case PromptInt 1 (int (length (options s))) w of
        None \<Rightarrow> Inl (AwaitingInput w)
      | Some (choice, w1) \<Rightarrow>
          if 0 \<le> choice - 1 \<and> choice - 1 < int (length (options s)) then
            (let option = options s ! nat (choice - 1);
                 w2 = called (Value option) w1
             in case validate s (Value option) of
                  Some e \<Rightarrow> prompt_loop s (Println e w2)
                | None \<Rightarrow>
                    (case store (Println (''Chose: '' @ Key option @ newline) w2)
                            (value s) (Value option) of
                       None \<Rightarrow> Inl (Panic NilPointerDereference)
                     | Some w3 \<Rightarrow> Inr (None, w3)))
          else Inl (Panic IndexOutOfRange))"
  by pat_completeness auto
termination
proof (relation "measure (\<lambda>(s, w). length (stdin w))")
  show "wf (measure (\<lambda>(s :: 't Select, w :: 't world). length (stdin w)))"
    by simp
next
  fix s :: "'t Select" and w y xb :: "'t world" and x2 x and xa :: "'t Option" and x2a
  assume p: "PromptInt 1 (int (length (options s))) w = Some x2"
    and x: "(x, y) = x2"
    and xb: "xb = called (Value xa) y"
  from p x have "length (stdin y) < length (stdin w)"
    using length_dropWhile_le [of "\<lambda>i. \<not> (1 \<le> i \<and> i \<le> int (length (options s)))" "stdin w"]
    by (auto split: list.splits)
  with xb show "((s, Println x2a xb), s, w) \<in> measure (\<lambda>(s, w). length (stdin w))"
    by (simp add: Println_def called_def)
qed

declare prompt_loop.simps [simp del]

text \<open>
  \<^verbatim>\<open>runAccessible\<close>: the listing is rendered and printed once, then the loop runs.
  \<^verbatim>\<open>s.theme.Focused\<close> panics when the theme is nil.
\<close>

definition runAccessible :: "'t Select \<Rightarrow> 't world \<Rightarrow> 't stop + error option \<times> 't world" where
  "runAccessible s w =
     (case theme s of
        None \<Rightarrow> Inl (Panic NilPointerDereference)
      | Some th \<Rightarrow>
          (let sb = Title (Focused th) (title s) @ newline;
               sb = listing 0 (options s) sb
           in prompt_loop s (Println (Base (Blurred th) sb) w)))"

subsection \<open>Vocabulary of the properties\<close>

text \<open>
  The logical action of a key message under a keymap: the case of the \<^verbatim>\<open>switch\<close>
  in \<^verbatim>\<open>Update\<close> that the message selects (the first binding that matches, in the
  order of the source).
\<close>

datatype action =
  MoveUp
| MoveDown
| Retreat
| Advance
| Unrelated

definition resolve :: "SelectKeyMap \<Rightarrow> string \<Rightarrow> action" where
  "resolve km k =
     (if Matches k (Up km) then MoveUp
      else if Matches k (Down km) then MoveDown
      else if Matches k (Prev km) then Retreat
      else if Matches k (Next km) then Advance
      else Unrelated)"

text \<open>
  The container hands the focused field one message at a time; \<open>dispatch\<close> does so for
  a list of messages and collects the commands the field returns. A panic ends the run.
\<close>

fun dispatch ::
  "'t Select \<Rightarrow> 't world \<Rightarrow> Msg list \<Rightarrow> panic + 't Select \<times> Cmd option list \<times> 't world" where
  "dispatch s w [] = Inr (s, [], w)"
| "dispatch s w (m # ms) =
     (case Update s w m of
        Inl p \<Rightarrow> Inl p
      | Inr (s', c, w') \<Rightarrow>
          (case dispatch s' w' ms of
             Inl p \<Rightarrow> Inl p
           | Inr (s'', cs, w'') \<Rightarrow> Inr (s'', c # cs, w'')))"

text \<open>A message that moves the cursor: a key message resolved to move-up or move-down.\<close>

fun is_move :: "SelectKeyMap \<Rightarrow> Msg \<Rightarrow> bool" where
  "is_move km (KeyMsg k) = (resolve km k = MoveUp \<or> resolve km k = MoveDown)"
| "is_move km OtherMsg = False"

text \<open>The cursor invariant of the spec: \<open>0 \<le> cursor < len(options)\<close>.\<close>

definition in_range :: "'t Select \<Rightarrow> bool" where
  "in_range s = (0 \<le> selected s \<and> selected s < int (length (options s)))"

subsection \<open>Fixtures: the example program's first field\<close>

text \<open>
  The example application builds \<^verbatim>\<open>NewSelect("Warrior", "Mage", "Rogue")\<close>; the key
  bindings and the theme are those a form would install.
\<close>

definition example_keys :: KeyMap where
  "example_keys =
     \<lparr>Select =
        \<lparr>Up = \<lparr>keys = [''up'', ''k''], disabled = False\<rparr>,
         Down = \<lparr>keys = [''down'', ''j''], disabled = False\<rparr>,
         Next = \<lparr>keys = [''tab'', ''enter''], disabled = False\<rparr>,
         Prev = \<lparr>keys = [''shift+tab''], disabled = False\<rparr>\<rparr>\<rparr>"

definition plain_theme :: Theme where
  "plain_theme =
     \<lparr>Focused = \<lparr>Base = (\<lambda>x. x), Title = (\<lambda>x. x)\<rparr>,
      Blurred = \<lparr>Base = (\<lambda>x. x), Title = (\<lambda>x. x)\<rparr>\<rparr>"

definition empty_world :: "string world" where
  "empty_world = \<lparr>cells = [], vcalls = [], stdout = [], stdin = []\<rparr>"

definition class_field :: "string Select" where
  "class_field =
     WithTheme
       (WithKeyMap (fst (NewSelect [] (\<lambda>x. x) [''Warrior'', ''Mage'', ''Rogue''] empty_world))
          example_keys)
       (Some plain_theme)"

definition class_world :: "string world" where
  "class_world = snd (NewSelect [] (\<lambda>x. x) [''Warrior'', ''Mage'', ''Rogue''] empty_world)"

definition no_mage :: "string \<Rightarrow> error option" where
  "no_mage v = (if v = ''Mage'' then Some ''mages are not hired'' else None)"

definition no_field :: "string Select" where
  "no_field = WithKeyMap (fst (NewSelect [] (\<lambda>x. x) [] empty_world)) example_keys"

definition no_world :: "string world" where
  "no_world = snd (NewSelect [] (\<lambda>x. x) [] empty_world)"

definition picky_field :: "string Select" where
  "picky_field = Validate class_field no_mage"

text \<open>
  The state of \<open>picky_field\<close> after move-down and a rejected advance (see
  \<open>rejected_field_reached\<close> below).
\<close>

definition rejected_field :: "string Select" where
  "rejected_field = picky_field\<lparr>selected := 1, err := Some ''mages are not hired''\<rparr>"

definition rejected_world :: "string world" where
  "rejected_world = called ''Mage'' class_world"

section \<open>Properties\<close>

subsection \<open>Auxiliary facts\<close>

lemma int64_id: "- (2 ^ 63) \<le> x \<Longrightarrow> x < 2 ^ 63 \<Longrightarrow> int64 x = x"
  by (simp add: int64_def)

lemma resolve_MoveUp: "resolve km k = MoveUp \<longleftrightarrow> Matches k (Up km)"
  by (simp add: resolve_def)

lemma resolve_MoveDown:
  "resolve km k = MoveDown \<longleftrightarrow> \<not> Matches k (Up km) \<and> Matches k (Down km)"
  by (simp add: resolve_def)

lemma resolve_Retreat:
  "resolve km k = Retreat \<longleftrightarrow>
     \<not> Matches k (Up km) \<and> \<not> Matches k (Down km) \<and> Matches k (Prev km)"
  by (simp add: resolve_def)

lemma resolve_Advance:
  "resolve km k = Advance \<longleftrightarrow>
     \<not> Matches k (Up km) \<and> \<not> Matches k (Down km) \<and> \<not> Matches k (Prev km) \<and>
     Matches k (Next km)"
  by (simp add: resolve_def)

lemma resolve_Unrelated:
  "resolve km k = Unrelated \<longleftrightarrow>
     \<not> Matches k (Up km) \<and> \<not> Matches k (Down km) \<and> \<not> Matches k (Prev km) \<and>
     \<not> Matches k (Next km)"
  by (simp add: resolve_def)

lemma Update_up:
  assumes "keymap s = Some km" and "resolve km k = MoveUp"
  shows "Update s w (KeyMsg k) =
    Inr (s\<lparr>err := None, selected := max (int64 (selected s - 1)) 0\<rparr>, None, w)"
  using assms by (simp add: Update_def resolve_MoveUp)

lemma Update_down:
  assumes "keymap s = Some km" and "resolve km k = MoveDown"
  shows "Update s w (KeyMsg k) =
    Inr (s\<lparr>err := None,
           selected := min (int64 (selected s + 1)) (int (length (options s)) - 1)\<rparr>, None, w)"
  using assms by (simp add: Update_def resolve_MoveDown)

lemma Update_retreat:
  assumes "keymap s = Some km" and "resolve km k = Retreat"
  shows "Update s w (KeyMsg k) = Inr (s\<lparr>err := None\<rparr>, Some prevField, w)"
  using assms by (simp add: Update_def resolve_Retreat)

lemma Update_unrelated:
  assumes "keymap s = Some km" and "resolve km k = Unrelated"
  shows "Update s w (KeyMsg k) = Inr (s\<lparr>err := None\<rparr>, None, w)"
  using assms by (simp add: Update_def resolve_Unrelated)

lemma Update_advance_rejected:
  assumes "keymap s = Some km" and "resolve km k = Advance" and "in_range s"
    and "validate s (Value (options s ! nat (selected s))) = Some e"
  shows "Update s w (KeyMsg k) =
    Inr (s\<lparr>err := Some e\<rparr>, None, called (Value (options s ! nat (selected s))) w)"
  using assms by (simp add: Update_def resolve_Advance in_range_def Let_def)

lemma Update_advance_accepted:
  assumes "keymap s = Some km" and "resolve km k = Advance" and "in_range s"
    and "validate s (Value (options s ! nat (selected s))) = None"
    and "value s = Some a" and "a < length (cells w)"
  shows "Update s w (KeyMsg k) =
    Inr (s\<lparr>err := None\<rparr>, Some nextField,
         w\<lparr>cells := (cells w)[a := Value (options s ! nat (selected s))],
           vcalls := vcalls w @ [Value (options s ! nat (selected s))]\<rparr>)"
  using assms
  by (simp add: Update_def resolve_Advance in_range_def Let_def store_def called_def)

lemma example_keys_resolve:
  "resolve (Select example_keys) ''up'' = MoveUp"
  "resolve (Select example_keys) ''down'' = MoveDown"
  "resolve (Select example_keys) ''shift+tab'' = Retreat"
  "resolve (Select example_keys) ''enter'' = Advance"
  "resolve (Select example_keys) ''x'' = Unrelated"
  by (simp_all add: resolve_def Matches_def example_keys_def)

lemma class_field_eq:
  "class_field =
     \<lparr>value = Some 0, title = [], description = [],
      options = [\<lparr>Key = ''Warrior'', Value = ''Warrior''\<rparr>, \<lparr>Key = ''Mage'', Value = ''Mage''\<rparr>,
                 \<lparr>Key = ''Rogue'', Value = ''Rogue''\<rparr>],
      validate = (\<lambda>_. None), err = None, selected = 0, focused = False, width = 0,
      accessible = False, theme = Some plain_theme, keymap = Some (Select example_keys)\<rparr>"
  by (simp add: class_field_def NewSelect_def new_def WithKeyMap_def WithTheme_def
      empty_world_def)

lemma class_world_eq:
  "class_world = \<lparr>cells = [[]], vcalls = [], stdout = [], stdin = []\<rparr>"
  by (simp add: class_world_def NewSelect_def new_def empty_world_def)

lemma rejected_field_reached:
  "dispatch picky_field class_world [KeyMsg ''down'', KeyMsg ''enter''] =
     Inr (rejected_field, [None, None], rejected_world)"
proof -
  let ?km = "Select example_keys"
  let ?s1 = "picky_field\<lparr>err := None, selected := 1\<rparr>"
  have km: "keymap picky_field = Some ?km" "keymap ?s1 = Some ?km"
    by (simp_all add: picky_field_def Validate_def class_field_eq)
  have down: "Update picky_field class_world (KeyMsg ''down'') = Inr (?s1, None, class_world)"
    using Update_down [OF km(1) example_keys_resolve(2), of class_world]
    by (simp add: picky_field_def Validate_def class_field_eq int64_def)
  have "in_range ?s1"
    by (simp add: in_range_def picky_field_def Validate_def class_field_eq)
  moreover have "validate ?s1 (Value (options ?s1 ! nat (selected ?s1))) = Some ''mages are not hired''"
    by (simp add: picky_field_def Validate_def class_field_eq no_mage_def)
  ultimately have enter:
    "Update ?s1 class_world (KeyMsg ''enter'') = Inr (rejected_field, None, rejected_world)"
    using Update_advance_rejected [OF km(2) example_keys_resolve(4), of "''mages are not hired''" class_world]
    by (simp add: rejected_field_def rejected_world_def picky_field_def Validate_def
        class_field_eq)
  show ?thesis
    by (simp add: down enter)
qed

text \<open>Scenario 6 of the spec, run from the freshly built field.\<close>

lemma scenario_6:
  "dispatch class_field class_world [KeyMsg ''down'', KeyMsg ''down'', KeyMsg ''enter''] =
     Inr (class_field\<lparr>selected := 2\<rparr>, [None, None, Some nextField],
          \<lparr>cells = [''Rogue''], vcalls = [''Rogue''], stdout = [], stdin = []\<rparr>)"
  by (simp add: Update_def class_field_eq class_world_eq Matches_def example_keys_def
      int64_def store_def called_def Let_def)

subsection \<open>Focus\<close>

text \<open>
  Claim C10. \<^verbatim>\<open>Focus\<close> sets the focused flag to true and returns no command. Nothing
  else changes: the resulting struct is the old one with only \<open>focused\<close> updated (so the
  cursor, the last error and the options are the same), and the world is returned as
  it was (no validator call is recorded and the bound-value cell is not written).
\<close>

theorem Focus_sets_only_focused:
  "Focus s w = (s\<lparr>focused := True\<rparr>, None, w)"
  by (simp add: Focus_def)

subsection \<open>Retreat\<close>

text \<open>
  Claim C7. A key message resolved to the retreat action makes \<^verbatim>\<open>Update\<close> return the
  \<^verbatim>\<open>prevField\<close> command at once: the world is returned unchanged (the validator is
  not called, the bound-value cell is not written) and of the struct only the last
  error is cleared, so the cursor stays where it was. This holds whether or not the
  field is focused.
\<close>

theorem retreat_immediate:
  assumes "keymap s = Some km" and "resolve km k = Retreat"
  shows "Update s w (KeyMsg k) = Inr (s\<lparr>err := None\<rparr>, Some prevField, w)"
  using assms by (rule Update_retreat)

theorem retreat_immediate_witness:
  "keymap rejected_field = Some (Select example_keys) \<and>
   resolve (Select example_keys) ''shift+tab'' = Retreat \<and>
   Update rejected_field rejected_world (KeyMsg ''shift+tab'') =
     Inr (rejected_field\<lparr>err := None\<rparr>, Some prevField, rejected_world) \<and>
   selected (rejected_field\<lparr>err := None\<rparr>) = 1"
proof -
  have km: "keymap rejected_field = Some (Select example_keys)"
    by (simp add: rejected_field_def picky_field_def Validate_def class_field_eq)
  show ?thesis
    using retreat_immediate [OF km example_keys_resolve(3), of rejected_world] km
    by (simp add: example_keys_resolve rejected_field_def)
qed

subsection \<open>Unrelated events\<close>

text \<open>
  Claim C6, as stated, fails: a key message that resolves to none of the four actions
  still passes the assignment \<^verbatim>\<open>s.err = nil\<close> at the head of the key-message case,
  so a field that holds an error does not come back unchanged.
\<close>

theorem unrelated_key_clears_error:
  "resolve (Select example_keys) ''x'' = Unrelated \<and>
   Update rejected_field rejected_world (KeyMsg ''x'') =
     Inr (rejected_field\<lparr>err := None\<rparr>, None, rejected_world) \<and>
   err rejected_field = Some ''mages are not hired'' \<and>
   rejected_field\<lparr>err := None\<rparr> \<noteq> rejected_field"
proof -
  have km: "keymap rejected_field = Some (Select example_keys)"
    by (simp add: rejected_field_def picky_field_def Validate_def class_field_eq)
  have e: "err rejected_field = Some ''mages are not hired''"
    by (simp add: rejected_field_def)
  have "err (rejected_field\<lparr>err := None\<rparr>) \<noteq> err rejected_field"
    by (simp add: e)
  then have "rejected_field\<lparr>err := None\<rparr> \<noteq> rejected_field"
    by metis
  then show ?thesis
    using Update_unrelated [OF km example_keys_resolve(5), of rejected_world] e
    by (simp add: example_keys_resolve)
qed

text \<open>
  Claim C6, amended. A message that is not a key message leaves the field and the
  world unchanged and yields no command. A key message that resolves to none of the
  four actions yields no command and leaves the world unchanged (no validator call, no
  write to the bound-value cell); of the struct it changes the last error only, which
  it clears.
\<close>

theorem unrelated_event:
  "Update s w OtherMsg = Inr (s, None, w) \<and>
   (keymap s = Some km \<and> resolve km k = Unrelated \<longrightarrow>
      Update s w (KeyMsg k) = Inr (s\<lparr>err := None\<rparr>, None, w))"
  by (simp add: Update_unrelated) (simp add: Update_def)

theorem unrelated_event_witness:
  "Update rejected_field rejected_world OtherMsg = Inr (rejected_field, None, rejected_world) \<and>
   keymap class_field = Some (Select example_keys) \<and>
   resolve (Select example_keys) ''x'' = Unrelated \<and>
   Update class_field class_world (KeyMsg ''x'') = Inr (class_field\<lparr>err := None\<rparr>, None, class_world)"
proof -
  have km: "keymap class_field = Some (Select example_keys)"
    by (simp add: class_field_eq)
  show ?thesis
    using unrelated_event [of rejected_field rejected_world]
      unrelated_event [of class_field class_world "Select example_keys" "''x''"] km
    by (simp add: example_keys_resolve)
qed

subsection \<open>Blur\<close>

text \<open>
  Claim C4. When the bound-value pointer points to a cell, \<^verbatim>\<open>Blur\<close> returns (it does
  not panic) with exactly one more validator call recorded, whose argument is the
  content of the bound-value cell (whatever option the cursor is on); the field is
  marked not focused and the validator's result is stored as the last error. That
  result is what \<^verbatim>\<open>Error\<close> returns afterwards, also after a \<^verbatim>\<open>Focus\<close> or a message
  that is not a key message, neither of which changes it.
\<close>

theorem Blur_validates_bound_value:
  assumes "value s = Some a" and "a < length (cells w)"
    and "s' = s\<lparr>focused := False, err := validate s (cells w ! a)\<rparr>"
    and "w' = w\<lparr>vcalls := vcalls w @ [cells w ! a]\<rparr>"
  shows "Blur s w = Inr (s', None, w') \<and>
    \<not> focused s' \<and>
    Error s' = validate s (cells w ! a) \<and>
    Error (fst (Focus s' w')) = validate s (cells w ! a) \<and>
    Update s' w' OtherMsg = Inr (s', None, w')"
  using assms
  by (simp add: Blur_def load_def called_def Error_def Focus_def Update_def)

theorem Blur_validates_bound_value_witness:
  "value rejected_field = Some 0 \<and> 0 < length (cells (class_world\<lparr>cells := [''Mage'']\<rparr>)) \<and>
   Value (options rejected_field ! nat (selected (rejected_field\<lparr>selected := 0\<rparr>))) = ''Warrior'' \<and>
   Blur (rejected_field\<lparr>selected := 0, err := None\<rparr>) (class_world\<lparr>cells := [''Mage'']\<rparr>) =
     Inr (rejected_field\<lparr>selected := 0, focused := False\<rparr>, None,
          class_world\<lparr>cells := [''Mage''], vcalls := [''Mage'']\<rparr>) \<and>
   Error (rejected_field\<lparr>selected := 0, focused := False\<rparr>) = Some ''mages are not hired''"
  using Blur_validates_bound_value [of "rejected_field\<lparr>selected := 0, err := None\<rparr>" 0
      "class_world\<lparr>cells := [''Mage'']\<rparr>", OF _ _ refl refl]
  by (simp add: rejected_field_def picky_field_def Validate_def class_field_eq class_world_eq
      no_mage_def Error_def)

subsection \<open>Advance\<close>

lemma dispatch_Cons_Inr:
  assumes "Update s w m = Inr (s', c, w')" and "dispatch s' w' ms = Inr (s'', cs, w'')"
  shows "dispatch s w (m # ms) = Inr (s'', c # cs, w'')"
  using assms by simp

lemma dispatch_advance_accepted:
  assumes "keymap s = Some km" and "resolve km k = Advance" and "in_range s"
    and "validate s (Value (options s ! nat (selected s))) = None"
    and "value s = Some a" and "a < length (cells w)"
  shows "dispatch s w (replicate (Suc n) (KeyMsg k)) =
    Inr (s\<lparr>err := None\<rparr>, replicate (Suc n) (Some nextField),
         w\<lparr>cells := (cells w)[a := Value (options s ! nat (selected s))],
           vcalls := vcalls w @ replicate (Suc n) (Value (options s ! nat (selected s)))\<rparr>)"
  using assms
proof (induction n arbitrary: s w)
  case 0
  then show ?case
    by (simp add: Update_advance_accepted)
next
  case (Suc n)
  let ?v = "Value (options s ! nat (selected s))"
  let ?s = "s\<lparr>err := None\<rparr>"
  let ?w = "w\<lparr>cells := (cells w)[a := ?v], vcalls := vcalls w @ [?v]\<rparr>"
  have step: "Update s w (KeyMsg k) = Inr (?s, Some nextField, ?w)"
    using Suc.prems by (rule Update_advance_accepted)
  have "dispatch ?s ?w (replicate (Suc n) (KeyMsg k)) =
    Inr (?s\<lparr>err := None\<rparr>, replicate (Suc n) (Some nextField),
         ?w\<lparr>cells := (cells ?w)[a := Value (options ?s ! nat (selected ?s))],
            vcalls := vcalls ?w @ replicate (Suc n) (Value (options ?s ! nat (selected ?s)))\<rparr>)"
    using Suc.prems by (intro Suc.IH) (simp_all add: in_range_def)
  then have rest: "dispatch ?s ?w (replicate (Suc n) (KeyMsg k)) =
    Inr (?s, replicate (Suc n) (Some nextField),
         w\<lparr>cells := (cells w)[a := ?v], vcalls := vcalls w @ replicate (Suc (Suc n)) ?v\<rparr>)"
    by simp
  show ?case
    using dispatch_Cons_Inr [OF step rest] by simp
qed

lemma dispatch_advance_rejected:
  assumes "keymap s = Some km" and "resolve km k = Advance" and "in_range s"
    and "validate s (Value (options s ! nat (selected s))) = Some e"
  shows "dispatch s w (replicate (Suc n) (KeyMsg k)) =
    Inr (s\<lparr>err := Some e\<rparr>, replicate (Suc n) None,
         w\<lparr>vcalls := vcalls w @ replicate (Suc n) (Value (options s ! nat (selected s)))\<rparr>)"
  using assms
proof (induction n arbitrary: s w)
  case 0
  then show ?case
    by (simp add: Update_advance_rejected called_def)
next
  case (Suc n)
  let ?v = "Value (options s ! nat (selected s))"
  let ?s = "s\<lparr>err := Some e\<rparr>"
  let ?w = "w\<lparr>vcalls := vcalls w @ [?v]\<rparr>"
  have step: "Update s w (KeyMsg k) = Inr (?s, None, ?w)"
    using Update_advance_rejected [OF Suc.prems, of w] by (simp add: called_def)
  have "dispatch ?s ?w (replicate (Suc n) (KeyMsg k)) =
    Inr (?s\<lparr>err := Some e\<rparr>, replicate (Suc n) None,
         ?w\<lparr>vcalls := vcalls ?w @ replicate (Suc n) (Value (options ?s ! nat (selected ?s)))\<rparr>)"
    using Suc.prems by (intro Suc.IH) (simp_all add: in_range_def)
  then have rest: "dispatch ?s ?w (replicate (Suc n) (KeyMsg k)) =
    Inr (?s, replicate (Suc n) None, w\<lparr>vcalls := vcalls w @ replicate (Suc (Suc n)) ?v\<rparr>)"
    by simp
  show ?case
    using dispatch_Cons_Inr [OF step rest] by simp
qed

text \<open>
  Claim C1. Let the field have options, the cursor on one of them, a validator that
  accepts the value \<open>v\<close> of the option under the cursor, and a bound-value pointer to a
  cell. A key message resolved to the advance action then makes \<^verbatim>\<open>Update\<close> return the
  \<^verbatim>\<open>nextField\<close> command, with the last error cleared and nothing else of the struct
  changed, \<open>v\<close> written in the bound-value cell (no other cell touched) and one call of
  the validator on \<open>v\<close> recorded. Sending the same message \<open>n + 1\<close> times in a row
  returns \<open>n + 1\<close> \<^verbatim>\<open>nextField\<close> commands, calls the validator \<open>n + 1\<close> times on \<open>v\<close>
  and ends in the same struct and the same store: no run panics or leaves an error.
\<close>

theorem advance_accepted:
  assumes "keymap s = Some km" and "resolve km k = Advance"
    and "options s \<noteq> []" and "in_range s"
    and "v = Value (options s ! nat (selected s))" and "validate s v = None"
    and "value s = Some a" and "a < length (cells w)"
  shows "Update s w (KeyMsg k) =
      Inr (s\<lparr>err := None\<rparr>, Some nextField,
           w\<lparr>cells := (cells w)[a := v], vcalls := vcalls w @ [v]\<rparr>) \<and>
    dispatch s w (replicate (Suc n) (KeyMsg k)) =
      Inr (s\<lparr>err := None\<rparr>, replicate (Suc n) (Some nextField),
           w\<lparr>cells := (cells w)[a := v], vcalls := vcalls w @ replicate (Suc n) v\<rparr>)"
  using assms Update_advance_accepted [of s km k a w]
    dispatch_advance_accepted [of s km k a w n]
  by simp

text \<open>
  Scenario 6 of the spec: the cursor is moved down twice to the third option, then
  advance is pressed twice.
\<close>

theorem advance_accepted_witness:
  "keymap (class_field\<lparr>selected := 2\<rparr>) = Some (Select example_keys) \<and>
   resolve (Select example_keys) ''enter'' = Advance \<and>
   options (class_field\<lparr>selected := 2\<rparr>) \<noteq> [] \<and>
   in_range (class_field\<lparr>selected := 2\<rparr>) \<and>
   validate (class_field\<lparr>selected := 2\<rparr>) ''Rogue'' = None \<and>
   Update (class_field\<lparr>selected := 2\<rparr>) class_world (KeyMsg ''enter'') =
     Inr (class_field\<lparr>selected := 2\<rparr>, Some nextField,
          \<lparr>cells = [''Rogue''], vcalls = [''Rogue''], stdout = [], stdin = []\<rparr>) \<and>
   dispatch (class_field\<lparr>selected := 2\<rparr>) class_world [KeyMsg ''enter'', KeyMsg ''enter''] =
     Inr (class_field\<lparr>selected := 2\<rparr>, [Some nextField, Some nextField],
          \<lparr>cells = [''Rogue''], vcalls = [''Rogue'', ''Rogue''], stdout = [], stdin = []\<rparr>)"
proof -
  let ?s = "class_field\<lparr>selected := 2\<rparr>"
  have km: "keymap ?s = Some (Select example_keys)"
    and ne: "options ?s \<noteq> []"
    and v: "''Rogue'' = Value (options ?s ! nat (selected ?s))"
    and ok: "validate ?s ''Rogue'' = None"
    and p: "value ?s = Some 0"
    and e: "?s\<lparr>err := None\<rparr> = ?s"
    by (simp_all add: class_field_eq)
  have r: "in_range ?s"
    by (simp add: class_field_eq in_range_def)
  have c: "0 < length (cells class_world)"
    by (simp add: class_world_eq)
  show ?thesis
    using advance_accepted [OF km example_keys_resolve(4) ne r v ok p c, of "Suc 0"]
      km ne r ok
    by (simp add: e class_world_eq example_keys_resolve del: dispatch.simps)
qed

text \<open>
  Claim C2. Let the cursor be on an option whose value \<open>v\<close> the validator rejects with
  error \<open>e\<close>. A key message resolved to the advance action then makes \<^verbatim>\<open>Update\<close> return
  no command; the struct is the old one with the last error set to \<open>e\<close> (so the cursor
  and the focused flag are as they were) and the world is the old one with one more
  validator call recorded (so the bound-value cell is as it was). The same holds for
  \<open>n + 1\<close> attempts in a row: no command at any attempt, the store unchanged.
\<close>

theorem advance_rejected:
  assumes "keymap s = Some km" and "resolve km k = Advance" and "in_range s"
    and "v = Value (options s ! nat (selected s))" and "validate s v = Some e"
  shows "Update s w (KeyMsg k) = Inr (s\<lparr>err := Some e\<rparr>, None, w\<lparr>vcalls := vcalls w @ [v]\<rparr>) \<and>
    dispatch s w (replicate (Suc n) (KeyMsg k)) =
      Inr (s\<lparr>err := Some e\<rparr>, replicate (Suc n) None,
           w\<lparr>vcalls := vcalls w @ replicate (Suc n) v\<rparr>) \<and>
    cells (w\<lparr>vcalls := vcalls w @ replicate (Suc n) v\<rparr>) = cells w \<and>
    selected (s\<lparr>err := Some e\<rparr>) = selected s \<and>
    focused (s\<lparr>err := Some e\<rparr>) = focused s"
  using assms Update_advance_rejected [of s km k e w]
    dispatch_advance_rejected [of s km k e w n]
  by (simp add: called_def)

text \<open>
  Scenario 7 of the spec: the validator rejects "Mage", the cursor is on it, and
  advance is pressed three times while the field is focused.
\<close>

theorem advance_rejected_witness:
  "keymap (fst (Focus rejected_field rejected_world)) = Some (Select example_keys) \<and>
   resolve (Select example_keys) ''enter'' = Advance \<and>
   in_range (fst (Focus rejected_field rejected_world)) \<and>
   validate (fst (Focus rejected_field rejected_world)) ''Mage'' = Some ''mages are not hired'' \<and>
   dispatch (fst (Focus rejected_field rejected_world)) class_world
       [KeyMsg ''enter'', KeyMsg ''enter'', KeyMsg ''enter''] =
     Inr (rejected_field\<lparr>focused := True\<rparr>, [None, None, None],
          \<lparr>cells = [[]], vcalls = [''Mage'', ''Mage'', ''Mage''], stdout = [], stdin = []\<rparr>)"
proof -
  let ?s = "fst (Focus rejected_field rejected_world)"
  have s: "?s = rejected_field\<lparr>focused := True\<rparr>"
    by (simp add: Focus_def)
  have km: "keymap ?s = Some (Select example_keys)"
    and v: "''Mage'' = Value (options ?s ! nat (selected ?s))"
    and no: "validate ?s ''Mage'' = Some ''mages are not hired''"
    and e: "?s\<lparr>err := Some ''mages are not hired''\<rparr> = ?s"
    by (simp_all add: Focus_def rejected_field_def picky_field_def Validate_def class_field_eq
        no_mage_def)
  have r: "in_range ?s"
    by (simp add: Focus_def rejected_field_def picky_field_def Validate_def class_field_eq
        in_range_def)
  show ?thesis
    using advance_rejected [OF km example_keys_resolve(4) r v no, of class_world "Suc (Suc 0)"]
      km r no
    by (simp add: e s [symmetric] class_world_eq example_keys_resolve del: dispatch.simps)
qed

subsection \<open>Cursor movement\<close>

lemma move_step:
  assumes "keymap s = Some km" and "is_move km m" and "in_range s"
    and "int (length (options s)) \<le> max_int"
  shows "\<exists>s'. Update s w m = Inr (s', None, w) \<and> in_range s' \<and> options s' = options s \<and>
    keymap s' = Some km"
proof (cases m)
  case (KeyMsg k)
  have lo: "int64 (selected s - 1) = selected s - 1"
    using assms(3,4) by (intro int64_id) (simp_all add: in_range_def max_int_def)
  have hi: "int64 (selected s + 1) = selected s + 1"
    using assms(3,4) by (intro int64_id) (simp_all add: in_range_def max_int_def)
  from assms(2) KeyMsg consider "resolve km k = MoveUp" | "resolve km k = MoveDown"
    by auto
  then show ?thesis
  proof cases
    case 1
    show ?thesis
      using Update_up [OF assms(1) 1, of w] assms(1,3) KeyMsg
      by (auto simp: lo in_range_def)
  next
    case 2
    show ?thesis
      using Update_down [OF assms(1) 2, of w] assms(1,3) KeyMsg
      by (auto simp: hi in_range_def)
  qed
next
  case OtherMsg
  with assms(2) show ?thesis
    by simp
qed

lemma dispatch_moves:
  assumes "keymap s = Some km" and "list_all (is_move km) ms" and "in_range s"
    and "int (length (options s)) \<le> max_int"
  shows "\<exists>s'. dispatch s w ms = Inr (s', replicate (length ms) None, w) \<and> in_range s' \<and>
    options s' = options s"
  using assms
proof (induction ms arbitrary: s)
  case Nil
  then show ?case
    by simp
next
  case (Cons m ms)
  from Cons.prems obtain s1 where step: "Update s w m = Inr (s1, None, w)"
    and s1: "in_range s1" "options s1 = options s" "keymap s1 = Some km"
    using move_step [of s km m w] by auto
  from Cons.prems s1 obtain s2
    where rest: "dispatch s1 w ms = Inr (s2, replicate (length ms) None, w)"
      and s2: "in_range s2" "options s2 = options s1"
    using Cons.IH [of s1] by auto
  show ?case
    using dispatch_Cons_Inr [OF step rest] s1 s2 by simp
qed

text \<open>
  Claim C3. Let the field have at least one option and the cursor on one of them (a
  Go slice never has more than \<open>max_int\<close> elements, which is the last hypothesis).
  After any list of messages that each resolve to move-up or move-down, the run has
  not panicked, no command was returned, the world is unchanged, the options are the
  same and the cursor is again on one of them. A single move-up sets the cursor to
  \<open>max (cursor - 1) 0\<close> and a single move-down to \<open>min (cursor + 1) (len - 1)\<close>, in
  unbounded arithmetic: the 64-bit operations do not wrap.
\<close>

theorem cursor_stays_in_range:
  assumes "keymap s = Some km" and "list_all (is_move km) ms"
    and "1 \<le> length (options s)" and "in_range s"
    and "int (length (options s)) \<le> max_int"
  shows "(\<exists>s'. dispatch s w ms = Inr (s', replicate (length ms) None, w) \<and> in_range s' \<and>
       options s' = options s) \<and>
    (resolve km k = MoveUp \<longrightarrow>
       Update s w (KeyMsg k) =
         Inr (s\<lparr>err := None, selected := max (selected s - 1) 0\<rparr>, None, w)) \<and>
    (resolve km k = MoveDown \<longrightarrow>
       Update s w (KeyMsg k) =
         Inr (s\<lparr>err := None,
                selected := min (selected s + 1) (int (length (options s)) - 1)\<rparr>, None, w))"
proof -
  have lo: "int64 (selected s - 1) = selected s - 1"
    using assms(4,5) by (intro int64_id) (simp_all add: in_range_def max_int_def)
  have hi: "int64 (selected s + 1) = selected s + 1"
    using assms(4,5) by (intro int64_id) (simp_all add: in_range_def max_int_def)
  show ?thesis
    using dispatch_moves [OF assms(1,2,4,5), of w] Update_up [OF assms(1), of k w]
      Update_down [OF assms(1), of k w]
    by (simp add: lo hi)
qed

theorem cursor_stays_in_range_witness:
  "keymap class_field = Some (Select example_keys) \<and>
   list_all (is_move (Select example_keys))
     [KeyMsg ''down'', KeyMsg ''j'', KeyMsg ''down'', KeyMsg ''down'', KeyMsg ''up''] \<and>
   1 \<le> length (options class_field) \<and> in_range class_field \<and>
   int (length (options class_field)) \<le> max_int \<and>
   (\<exists>s'. dispatch class_field class_world
       [KeyMsg ''down'', KeyMsg ''j'', KeyMsg ''down'', KeyMsg ''down'', KeyMsg ''up''] =
       Inr (s', [None, None, None, None, None], class_world) \<and> in_range s' \<and>
       options s' = options class_field) \<and>
   Update class_field class_world (KeyMsg ''up'') = Inr (class_field, None, class_world) \<and>
   Update (class_field\<lparr>selected := 2\<rparr>) class_world (KeyMsg ''down'') =
     Inr (class_field\<lparr>selected := 2\<rparr>, None, class_world)"
proof -
  let ?ms = "[KeyMsg ''down'', KeyMsg ''j'', KeyMsg ''down'', KeyMsg ''down'', KeyMsg ''up'']"
  let ?t = "class_field\<lparr>selected := 2\<rparr>"
  have j: "resolve (Select example_keys) ''j'' = MoveDown"
    by (simp add: resolve_def Matches_def example_keys_def)
  have km: "keymap class_field = Some (Select example_keys)"
    "keymap ?t = Some (Select example_keys)"
    by (simp_all add: class_field_eq)
  have ms: "list_all (is_move (Select example_keys)) ?ms"
    and nil: "list_all (is_move (Select example_keys)) []"
    by (simp_all add: example_keys_resolve j)
  have n: "1 \<le> length (options class_field)" "1 \<le> length (options ?t)"
    by (simp_all add: class_field_eq)
  have r: "in_range class_field" "in_range ?t"
    by (simp_all add: class_field_eq in_range_def)
  have b: "int (length (options class_field)) \<le> max_int" "int (length (options ?t)) \<le> max_int"
    by (simp_all add: class_field_eq max_int_def)
  have e1: "length (options class_field) = 3" "selected class_field = 0"
    by (simp_all add: class_field_eq)
  have e2: "class_field\<lparr>err := None, selected := 0\<rparr> = class_field"
    "class_field\<lparr>err := None, selected := 2\<rparr> = ?t"
    by (simp_all add: class_field_eq)
  show ?thesis
    using cursor_stays_in_range [OF km(1) ms n(1) r(1) b(1), of class_world "''up''"]
      cursor_stays_in_range [OF km(2) nil n(2) r(2) b(2), of class_world "''down''"]
      km(1) ms n(1) r(1) b(1)
    by (simp add: e1 e2 j example_keys_resolve del: dispatch.simps)
qed

subsection \<open>Zero options\<close>

lemma no_field_eq:
  "no_field =
     \<lparr>value = Some 0, title = [], description = [], options = [],
      validate = (\<lambda>_. None), err = None, selected = 0, focused = False, width = 0,
      accessible = False, theme = None, keymap = Some (Select example_keys)\<rparr>"
  by (simp add: no_field_def NewSelect_def new_def WithKeyMap_def empty_world_def)

text \<open>
  Claim C5, as stated, fails. \<^verbatim>\<open>NewSelect\<close> called with no options returns a field
  (nothing is rejected), and on that field the events are not no-ops: move-down sets
  the cursor to \<open>min (0 + 1) (0 - 1) = - 1\<close>, and advance evaluates
  \<^verbatim>\<open>s.options[0]\<close> on the empty slice, which panics.
\<close>

theorem zero_options_not_guarded:
  "options no_field = [] \<and> selected no_field = 0 \<and>
   resolve (Select example_keys) ''enter'' = Advance \<and>
   Update no_field no_world (KeyMsg ''enter'') = Inl IndexOutOfRange \<and>
   resolve (Select example_keys) ''down'' = MoveDown \<and>
   Update no_field no_world (KeyMsg ''down'') = Inr (no_field\<lparr>selected := - 1\<rparr>, None, no_world) \<and>
   \<not> in_range (no_field\<lparr>selected := - 1\<rparr>)"
proof -
  have adv: "Update no_field no_world (KeyMsg ''enter'') = Inl IndexOutOfRange"
    using example_keys_resolve(4)
    by (simp add: Update_def no_field_eq resolve_Advance)
  have km: "keymap no_field = Some (Select example_keys)"
    by (simp add: no_field_eq)
  have down: "Update no_field no_world (KeyMsg ''down'') =
      Inr (no_field\<lparr>selected := - 1\<rparr>, None, no_world)"
    using Update_down [OF km example_keys_resolve(2), of no_world]
    by (simp add: no_field_eq int64_def)
  show ?thesis
    by (simp add: adv down example_keys_resolve) (simp add: no_field_eq in_range_def)
qed

text \<open>
  Claim C5, amended. A field with zero options is accepted at construction. The
  guarantee is conditional on the spec's assumption of at least one option: for a
  field with options and the cursor on one of them, a key message resolved to
  move-up, move-down or advance does not panic with an index out of range and, when
  \<^verbatim>\<open>Update\<close> returns, the cursor is again on one of the options. On a field with zero
  options and the cursor at 0, move-up leaves the cursor at 0.
\<close>

theorem navigation_in_bounds:
  "options (fst (NewSelect zero Sprint [] w0)) = [] \<and>
   (keymap s = Some km \<and> resolve km k \<in> {MoveUp, MoveDown, Advance} \<and>
    options s \<noteq> [] \<and> in_range s \<and> int (length (options s)) \<le> max_int \<longrightarrow>
      Update s w (KeyMsg k) \<noteq> Inl IndexOutOfRange \<and>
      (\<forall>s' c w'. Update s w (KeyMsg k) = Inr (s', c, w') \<longrightarrow> in_range s')) \<and>
   (keymap s = Some km \<and> resolve km k = MoveUp \<and> options s = [] \<and> selected s = 0 \<longrightarrow>
      Update s w (KeyMsg k) = Inr (s\<lparr>err := None, selected := 0\<rparr>, None, w))"
proof (intro conjI impI)
  show "options (fst (NewSelect zero Sprint [] w0)) = []"
    by (simp add: NewSelect_def new_def)
next
  assume a: "keymap s = Some km \<and> resolve km k \<in> {MoveUp, MoveDown, Advance} \<and>
    options s \<noteq> [] \<and> in_range s \<and> int (length (options s)) \<le> max_int"
  then have km: "keymap s = Some km" and r: "in_range s"
    and b: "int (length (options s)) \<le> max_int"
    by simp_all
  from a consider "is_move km (KeyMsg k)" | "resolve km k = Advance"
    by auto
  then have "Update s w (KeyMsg k) \<noteq> Inl IndexOutOfRange \<and>
      (\<forall>s' c w'. Update s w (KeyMsg k) = Inr (s', c, w') \<longrightarrow> in_range s')"
  proof cases
    case 1
    then show ?thesis
      using move_step [OF km 1 r b, of w] by auto
  next
    case 2
    then show ?thesis
      using km r
      by (auto simp: Update_def resolve_Advance in_range_def Let_def
          split: if_splits option.splits)
  qed
  then show "Update s w (KeyMsg k) \<noteq> Inl IndexOutOfRange"
    and "\<forall>s' c w'. Update s w (KeyMsg k) = Inr (s', c, w') \<longrightarrow> in_range s'"
    by simp_all
next
  assume "keymap s = Some km \<and> resolve km k = MoveUp \<and> options s = [] \<and> selected s = 0"
  then show "Update s w (KeyMsg k) = Inr (s\<lparr>err := None, selected := 0\<rparr>, None, w)"
    using Update_up [of s km k w] by (simp add: int64_def)
qed

theorem navigation_in_bounds_witness:
  "options (fst (NewSelect [] (\<lambda>x. x) [] empty_world)) = [] \<and>
   keymap class_field = Some (Select example_keys) \<and>
   resolve (Select example_keys) ''enter'' \<in> {MoveUp, MoveDown, Advance} \<and>
   options class_field \<noteq> [] \<and> in_range class_field \<and>
   int (length (options class_field)) \<le> max_int \<and>
   Update class_field class_world (KeyMsg ''enter'') \<noteq> Inl IndexOutOfRange \<and>
   Update class_field class_world (KeyMsg ''enter'') =
     Inr (class_field, Some nextField, class_world\<lparr>cells := [''Warrior''], vcalls := [''Warrior'']\<rparr>) \<and>
   keymap no_field = Some (Select example_keys) \<and>
   resolve (Select example_keys) ''up'' = MoveUp \<and>
   options no_field = [] \<and> selected no_field = 0 \<and>
   Update no_field no_world (KeyMsg ''up'') = Inr (no_field, None, no_world)"
proof -
  have h: "keymap class_field = Some (Select example_keys)"
    "resolve (Select example_keys) ''enter'' \<in> {MoveUp, MoveDown, Advance}"
    "options class_field \<noteq> []" "in_range class_field"
    "int (length (options class_field)) \<le> max_int"
    by (simp_all add: class_field_eq example_keys_resolve in_range_def max_int_def)
  have g: "keymap no_field = Some (Select example_keys)"
    "resolve (Select example_keys) ''up'' = MoveUp"
    "options no_field = []" "selected no_field = 0"
    "no_field\<lparr>err := None, selected := 0\<rparr> = no_field"
    by (simp_all add: no_field_eq example_keys_resolve)
  have u: "Update class_field class_world (KeyMsg ''enter'') =
     Inr (class_field, Some nextField, class_world\<lparr>cells := [''Warrior''], vcalls := [''Warrior'']\<rparr>)"
    using Update_advance_accepted [OF h(1) example_keys_resolve(4) h(4), of 0 class_world]
    by (simp add: class_field_eq class_world_eq)
  have "Update class_field class_world (KeyMsg ''enter'') \<noteq> Inl IndexOutOfRange"
    using navigation_in_bounds [of "[]" "\<lambda>x. x" empty_world class_field "Select example_keys"
        "''enter''" class_world] h
    by (simp add: example_keys_resolve)
  moreover have "Update no_field no_world (KeyMsg ''up'') = Inr (no_field, None, no_world)"
    using navigation_in_bounds [of "[]" "\<lambda>x. x" empty_world no_field "Select example_keys"
        "''up''" no_world] g
    by simp
  moreover have "options (fst (NewSelect [] (\<lambda>x. x) [] empty_world)) = []"
    using navigation_in_bounds [of "[]" "\<lambda>x. x" empty_world no_field "Select example_keys"
        "''up''" no_world]
    by simp
  ultimately show ?thesis
    using h g(1-4) u by simp
qed

subsection \<open>Construction\<close>

text \<open>
  Claim C9. \<^verbatim>\<open>NewSelect\<close> returns a field whose validator returns no error for
  every value and whose bound-value pointer is not nil: it points to a cell that did
  not exist before the call, holds the zero value and leaves every older cell as it
  was. With that validator no validation produces an error: whatever else is
  configured on the field, every \<^verbatim>\<open>Update\<close> of a key message and every \<^verbatim>\<open>Blur\<close> that
  returns leaves the last error nil. In particular \<^verbatim>\<open>Blur\<close> on the new field returns with no error,
  and so does advance once a keymap is installed and there is an option to advance
  on.
\<close>

theorem NewSelect_defaults:
  assumes "NewSelect zero Sprint opts w = (s, w')"
  shows "(\<forall>x. validate s x = None) \<and>
    value s = Some (length (cells w)) \<and>
    cells w' = cells w @ [zero] \<and>
    load w (value s) = None \<and> load w' (value s) = Some zero \<and>
    (\<forall>s2 w2 k2 s3 c w3. validate s2 = validate s \<longrightarrow>
       (Update s2 w2 (KeyMsg k2) = Inr (s3, c, w3) \<longrightarrow> err s3 = None) \<and>
       (Blur s2 w2 = Inr (s3, c, w3) \<longrightarrow> err s3 = None)) \<and>
    Blur s w' = Inr (s, None, w'\<lparr>vcalls := vcalls w' @ [zero]\<rparr>) \<and>
    (opts \<noteq> [] \<and> resolve (Select k) key = Advance \<longrightarrow>
       Update (WithKeyMap s k) w' (KeyMsg key) =
         Inr (WithKeyMap s k, Some nextField,
              w'\<lparr>cells := cells w @ [hd opts], vcalls := vcalls w' @ [hd opts]\<rparr>))"
proof -
  from assms have s: "s =
      \<lparr>value = Some (length (cells w)), title = [], description = [],
       options = map (\<lambda>option. \<lparr>Key = Sprint option, Value = option\<rparr>) opts,
       validate = (\<lambda>_. None), err = None, selected = 0, focused = False, width = 0,
       accessible = False, theme = None, keymap = None\<rparr>"
    and w': "w' = w\<lparr>cells := cells w @ [zero]\<rparr>"
    by (simp_all add: NewSelect_def new_def)
  have v: "\<forall>x. validate s x = None"
    by (simp add: s)
  have never: "err s3 = None"
    if "validate s2 = validate s"
      and "Update s2 w2 (KeyMsg k2) = Inr (s3, c, w3) \<or> Blur s2 w2 = Inr (s3, c, w3)"
    for s2 :: "'a Select" and w2 k2 s3 c w3
    using that v
    by (auto simp: Update_def Blur_def Let_def split: Msg.splits option.splits if_splits)
  have blur: "Blur s w' = Inr (s, None, w'\<lparr>vcalls := vcalls w' @ [zero]\<rparr>)"
    by (simp add: Blur_def load_def called_def s w')
  have adv: "Update (WithKeyMap s k) w' (KeyMsg key) =
         Inr (WithKeyMap s k, Some nextField,
              w'\<lparr>cells := cells w @ [hd opts], vcalls := vcalls w' @ [hd opts]\<rparr>)"
    if "opts \<noteq> []" and "resolve (Select k) key = Advance"
  proof -
    from that(1) obtain x xs where opts: "opts = x # xs"
      by (cases opts) auto
    have "Update (WithKeyMap s k) w' (KeyMsg key) =
      Inr (WithKeyMap s k\<lparr>err := None\<rparr>, Some nextField,
         w'\<lparr>cells := (cells w')[length (cells w) :=
                Value (options (WithKeyMap s k) ! nat (selected (WithKeyMap s k)))],
           vcalls := vcalls w' @ [Value (options (WithKeyMap s k) ! nat (selected (WithKeyMap s k)))]\<rparr>)"
      using that(2)
      by (intro Update_advance_accepted [where km = "Select k"])
        (simp_all add: WithKeyMap_def s w' in_range_def opts)
    then show ?thesis
      by (simp add: WithKeyMap_def s w' opts)
  qed
  show ?thesis
    using v never blur adv
    by (simp add: s w' load_def) blast
qed

theorem NewSelect_defaults_witness:
  "NewSelect [] (\<lambda>x. x) [''Warrior'', ''Mage'', ''Rogue''] empty_world =
     (fst (NewSelect [] (\<lambda>x. x) [''Warrior'', ''Mage'', ''Rogue''] empty_world), class_world) \<and>
   value class_field = Some 0 \<and> cells class_world = [[]] \<and>
   validate class_field ''Mage'' = None \<and>
   Blur class_field class_world =
     Inr (class_field, None, class_world\<lparr>vcalls := [[]]\<rparr>) \<and>
   resolve (Select example_keys) ''enter'' = Advance \<and>
   Update (WithKeyMap (fst (NewSelect [] (\<lambda>x. x) [''Warrior'', ''Mage'', ''Rogue''] empty_world))
       example_keys) class_world (KeyMsg ''enter'') =
     Inr (WithKeyMap (fst (NewSelect [] (\<lambda>x. x) [''Warrior'', ''Mage'', ''Rogue''] empty_world))
            example_keys, Some nextField,
          class_world\<lparr>cells := [''Warrior''], vcalls := [''Warrior'']\<rparr>)"
proof -
  let ?s = "fst (NewSelect [] (\<lambda>x. x) [''Warrior'', ''Mage'', ''Rogue''] empty_world)"
  have new: "NewSelect [] (\<lambda>x. x) [''Warrior'', ''Mage'', ''Rogue''] empty_world = (?s, class_world)"
    by (simp add: class_world_def)
  note d = NewSelect_defaults [OF new, of example_keys "''enter''"]
  have same: "validate class_field = validate ?s"
    by (simp add: class_field_def WithTheme_def WithKeyMap_def)
  have f: "value class_field = Some 0" "cells class_world = [[]]"
    by (simp_all add: class_field_eq class_world_eq)
  have "validate class_field ''Mage'' = None"
    using d same by simp
  moreover have "Blur class_field class_world = Inr (class_field, None, class_world\<lparr>vcalls := [[]]\<rparr>)"
    using Blur_def [of class_field class_world]
    by (simp add: class_field_eq class_world_eq load_def called_def)
  moreover have "Update (WithKeyMap ?s example_keys) class_world (KeyMsg ''enter'') =
     Inr (WithKeyMap ?s example_keys, Some nextField,
          class_world\<lparr>cells := [''Warrior''], vcalls := [''Warrior'']\<rparr>)"
    using d by (simp add: example_keys_resolve empty_world_def class_world_eq)
  ultimately show ?thesis
    using new f by (simp add: example_keys_resolve)
qed

subsection \<open>The accessible path: properties\<close>

lemma PromptInt_Some:
  assumes "PromptInt low high w = Some (c, w1)"
  shows "low \<le> c \<and> c \<le> high \<and> w1 = w\<lparr>stdin := stdin w1\<rparr> \<and>
    length (stdin w1) < length (stdin w)"
proof -
  let ?P = "\<lambda>i. \<not> (low \<le> i \<and> i \<le> high)"
  from assms have d: "dropWhile ?P (stdin w) = c # stdin w1" and w1: "w1 = w\<lparr>stdin := stdin w1\<rparr>"
    by (auto split: list.splits)
  from d have "\<not> ?P c"
    by (simp add: dropWhile_eq_Cons_conv)
  moreover have "length (stdin w1) < length (stdin w)"
    using length_dropWhile_le [of ?P "stdin w"] d by simp
  ultimately show ?thesis
    using w1 by simp
qed

lemma prompt_loop_rejected:
  assumes "PromptInt 1 (int (length (options s))) w = Some (c, w1)"
    and "validate s (Value (options s ! nat (c - 1))) = Some e"
  shows "prompt_loop s w =
    prompt_loop s (w1\<lparr>vcalls := vcalls w1 @ [Value (options s ! nat (c - 1))],
                      stdout := stdout w1 @ [e]\<rparr>)"
  using assms PromptInt_Some [OF assms(1)]
  by (subst prompt_loop.simps) (simp add: Let_def called_def Println_def del: PromptInt.simps)

lemma prompt_loop_accepted:
  assumes "PromptInt 1 (int (length (options s))) w = Some (c, w1)"
    and "validate s (Value (options s ! nat (c - 1))) = None"
    and "value s = Some a" and "a < length (cells w)"
  shows "prompt_loop s w =
    Inr (None, w1\<lparr>vcalls := vcalls w1 @ [Value (options s ! nat (c - 1))],
                  stdout := stdout w1 @ [''Chose: '' @ Key (options s ! nat (c - 1)) @ newline],
                  cells := (cells w1)[a := Value (options s ! nat (c - 1))]\<rparr>)"
proof -
  from PromptInt_Some [OF assms(1)] have c: "1 \<le> c" "c \<le> int (length (options s))"
    and w1: "w1 = w\<lparr>stdin := stdin w1\<rparr>"
    by simp_all
  from w1 have "cells w1 = cells w"
    by (metis world.select_convs(1) world.surjective world.update_convs(4))
  with assms c show ?thesis
    by (subst prompt_loop.simps)
      (simp add: Let_def called_def Println_def store_def del: PromptInt.simps)
qed

lemma itoa_digits:
  "itoa (Suc 0) = ''1''" "itoa (Suc (Suc 0)) = ''2''" "itoa (Suc (Suc (Suc 0))) = ''3''"
  by (simp_all add: itoa.simps digit_def)

text \<open>
  Claim C8. Let the prompt return the choice \<open>c\<close>, leaving the world \<open>w1\<close> (the old
  world with the consumed input removed), and let \<open>option\<close> be option number \<open>c\<close>.
  The choice lies in \<open>[1, len(options)]\<close>, so the indexing does not panic.
  \<^item> If the validator rejects the option's value with error \<open>e\<close>, the loop prints \<open>e\<close>
    and goes on prompting: the store of cells is as it was.
  \<^item> If the validator accepts it and the bound-value pointer points to a cell, the
    loop prints "Chose: " followed by the option's label (and a newline), writes the
    option's value in the bound-value cell and returns the nil error.
  \<^item> \<^verbatim>\<open>runAccessible\<close> on a field with a theme prints the rendered listing once and
    then is this loop.
  The path returns an error value only: its result has no command component, so no
  navigation signal can come out of it, and the field's struct is not changed.
\<close>

theorem accessible_choice:
  assumes "PromptInt 1 (int (length (options s))) w = Some (c, w1)"
    and "option = options s ! nat (c - 1)"
  shows "1 \<le> c \<and> c \<le> int (length (options s)) \<and> cells w1 = cells w \<and>
    (validate s (Value option) = Some e \<longrightarrow>
       prompt_loop s w =
         prompt_loop s (w1\<lparr>vcalls := vcalls w1 @ [Value option],
                           stdout := stdout w1 @ [e]\<rparr>)) \<and>
    (validate s (Value option) = None \<and> value s = Some a \<and> a < length (cells w) \<longrightarrow>
       prompt_loop s w =
         Inr (None, w1\<lparr>vcalls := vcalls w1 @ [Value option],
                       stdout := stdout w1 @ [''Chose: '' @ Key option @ newline],
                       cells := (cells w)[a := Value option]\<rparr>)) \<and>
    (theme s = Some th \<longrightarrow>
       runAccessible s w0 =
         prompt_loop s
           (Println (Base (Blurred th)
              (listing 0 (options s) (Title (Focused th) (title s) @ newline))) w0))"
proof -
  from PromptInt_Some [OF assms(1)] have c: "1 \<le> c" "c \<le> int (length (options s))"
    and w1: "w1 = w\<lparr>stdin := stdin w1\<rparr>"
    by simp_all
  from w1 have cells: "cells w1 = cells w"
    by (metis world.select_convs(1) world.surjective world.update_convs(4))
  show ?thesis
    using c cells assms(2) prompt_loop_rejected [OF assms(1), of e]
      prompt_loop_accepted [OF assms(1), of a]
    by (simp add: runAccessible_def del: PromptInt.simps)
qed

text \<open>
  Scenario 8 of the spec (three options, the user types 2, the validator accepts),
  and a run with a validator that rejects the second option: the user types 7, which
  the prompt does not accept, then 2, then 3.
\<close>

theorem accessible_choice_witness:
  "runAccessible class_field (class_world\<lparr>stdin := [2]\<rparr>) =
     Inr (None,
       \<lparr>cells = [''Mage''], vcalls = [''Mage''],
        stdout = [newline @ ''1. Warrior'' @ newline @ ''2. Mage'' @ newline @ ''3. Rogue'' @ newline,
                  ''Chose: Mage'' @ newline],
        stdin = []\<rparr>) \<and>
   PromptInt 1 (int (length (options picky_field))) (class_world\<lparr>stdin := [7, 2, 3]\<rparr>) =
     Some (2, class_world\<lparr>stdin := [3]\<rparr>) \<and>
   prompt_loop picky_field (class_world\<lparr>stdin := [7, 2, 3]\<rparr>) =
     prompt_loop picky_field
       (class_world\<lparr>stdin := [3], vcalls := [''Mage''], stdout := [''mages are not hired'']\<rparr>) \<and>
   prompt_loop picky_field
       (class_world\<lparr>stdin := [3], vcalls := [''Mage''], stdout := [''mages are not hired'']\<rparr>) =
     Inr (None,
       \<lparr>cells = [''Rogue''], vcalls = [''Mage'', ''Rogue''],
        stdout = [''mages are not hired'', ''Chose: Rogue'' @ newline], stdin = []\<rparr>)"
proof -
  let ?l = "newline @ ''1. Warrior'' @ newline @ ''2. Mage'' @ newline @ ''3. Rogue'' @ newline"
  let ?w0 = "class_world\<lparr>stdin := [2]\<rparr>"
  let ?w1 = "class_world\<lparr>stdin := [2], stdout := [?l]\<rparr>"
  let ?w2 = "class_world\<lparr>stdin := [7, 2, 3]\<rparr>"
  let ?w3 = "class_world\<lparr>stdin := [3], vcalls := [''Mage''], stdout := [''mages are not hired'']\<rparr>"
  have l: "listing 0 (options class_field) (Title (Focused plain_theme) (title class_field) @ newline) = ?l"
    by (simp add: class_field_eq plain_theme_def itoa_digits)
  have p: "options picky_field = options class_field" "value picky_field = Some 0"
    "validate picky_field = no_mage" "length (options class_field) = 3"
    "theme class_field = Some plain_theme"
    by (simp_all add: picky_field_def Validate_def class_field_eq)
  have p1: "PromptInt 1 (int (length (options class_field))) ?w1 =
      Some (2, class_world\<lparr>stdin := [], stdout := [?l]\<rparr>)"
    by (simp add: p)
  have p2: "PromptInt 1 (int (length (options picky_field))) ?w2 = Some (2, class_world\<lparr>stdin := [3]\<rparr>)"
    by (simp add: p)
  have p3: "PromptInt 1 (int (length (options picky_field))) ?w3 =
      Some (3, class_world\<lparr>stdin := [], vcalls := [''Mage''], stdout := [''mages are not hired'']\<rparr>)"
    by (simp add: p)
  note c1 = accessible_choice [OF p1 refl, of "[]" 0 plain_theme ?w0]
  note c2 = accessible_choice [OF p2 refl, of "''mages are not hired''" 0 plain_theme ?w2]
  note c3 = accessible_choice [OF p3 refl, of "[]" 0 plain_theme ?w3]
  note accept = conjunct2 [THEN conjunct2, THEN conjunct2, THEN conjunct2, THEN conjunct1]
  note reject = conjunct2 [THEN conjunct2, THEN conjunct2, THEN conjunct1]
  note whole = conjunct2 [THEN conjunct2, THEN conjunct2, THEN conjunct2, THEN conjunct2]
  have run: "runAccessible class_field ?w0 = prompt_loop class_field ?w1"
    using c1 [THEN whole] by (simp add: l p) (simp add: plain_theme_def Println_def class_world_eq)
  have ok: "prompt_loop class_field ?w1 =
     Inr (None, \<lparr>cells = [''Mage''], vcalls = [''Mage''],
            stdout = [?l, ''Chose: Mage'' @ newline], stdin = []\<rparr>)"
    using c1 [THEN accept] by (simp add: class_field_eq class_world_eq)
  have no: "prompt_loop picky_field ?w2 = prompt_loop picky_field ?w3"
    using c2 [THEN reject] by (simp add: p no_mage_def) (simp add: class_field_eq class_world_eq)
  have yes: "prompt_loop picky_field ?w3 =
     Inr (None, \<lparr>cells = [''Rogue''], vcalls = [''Mage'', ''Rogue''],
            stdout = [''mages are not hired'', ''Chose: Rogue'' @ newline], stdin = []\<rparr>)"
    using c3 [THEN accept] by (simp add: p no_mage_def) (simp add: class_field_eq class_world_eq)
  show ?thesis
    by (simp only: run ok no yes p2)
qed

end
